theory Spec2Isabelle
  imports Complex_Main
begin

section \<open>Text primitives used by the chatbot\<close>

text \<open>
  Python strings are modelled as \<open>string\<close> (a list of \<open>char\<close>), each character standing
  for one code point below 256. \<open>lower\<close> is \<open>str.lower\<close> on such text: the letters
  \<open>A\<close>..\<open>Z\<close> and the capital letters 0xC0..0xDE (all but the multiplication sign 0xD7)
  move up by 32, every other character stays. \<open>isspace\<close> is the set of these characters
  that \<open>str.strip()\<close> removes: tab, line feed, vertical tab, form feed, carriage return,
  the separators 0x1C..0x1F, the space, the next-line control 0x85 and the no-break space
  0xA0. \<open>str_in k s\<close> is the substring test \<open>k in s\<close>.
\<close>

definition lower_char :: "char \<Rightarrow> char" where
  "lower_char c =
     (let n = (of_char c :: nat)
      in if (65 \<le> n \<and> n \<le> 90) \<or> (192 \<le> n \<and> n \<le> 222 \<and> n \<noteq> 215)
         then char_of (n + 32) else c)"

definition lower :: "string \<Rightarrow> string" where
  "lower s = map lower_char s"

definition isspace :: "char \<Rightarrow> bool" where
  "isspace c =
     (let n = (of_char c :: nat)
      in (9 \<le> n \<and> n \<le> 13) \<or> (28 \<le> n \<and> n \<le> 32) \<or> n = 133 \<or> n = 160)"

definition strip :: "string \<Rightarrow> string" where
  "strip s = rev (dropWhile isspace (rev (dropWhile isspace s)))"

fun startswith :: "string \<Rightarrow> string \<Rightarrow> bool" where
  "startswith s [] = True"
| "startswith [] (k # ks) = False"
| "startswith (c # cs) (k # ks) = (c = k \<and> startswith cs ks)"

fun str_in :: "string \<Rightarrow> string \<Rightarrow> bool" where
  "str_in k [] = (k = [])"
| "str_in k (c # cs) = (startswith (c # cs) k \<or> str_in k cs)"

section \<open>chatbot.py: ChatbotManager\<close>

subsection \<open>The fixed tables\<close>

text \<open>
  \<open>self.responses\<close> and \<open>self.keywords\<close> (here \<open>keyword_table\<close>) are dictionaries written as literals; Python
  iterates a dictionary in insertion order, so each is an association list in the order of
  the source, with pairwise different keys.
\<close>

definition responses :: "(string \<times> string list) list" where
  "responses =
    [(''greetings'',
       [''Hello! It's great to see you! How can I help you today?'',
        ''Hi there! I'm excited to chat with you. What's on your mind?'',
        ''Greetings! I'm here and ready to assist you with anything you need.'',
        ''Hey! Welcome back! What would you like to talk about?'']),
     (''personal_questions'',
       [''That's a thoughtful question about me. I'm an AI assistant created to help and chat with people like you.'',
        ''I'm here to be helpful and engaging. What I find most interesting is learning about the people I talk with!'',
        ''As an AI, I don't have personal experiences like humans do, but I enjoy our conversations and helping however I can.'']),
     (''compliments'',
       [''Thank you so much! That means a lot to me. You seem pretty awesome yourself!'',
        ''That's very kind of you to say! I really appreciate it.'',
        ''You're too kind! I'm just happy I can be helpful to you.'']),
     (''questions'',
       [''That's a fascinating question! Let me think about that for a moment...'',
        ''Great question! I'd be happy to help you explore that topic.'',
        ''Interesting! That's something worth discussing in detail.'',
        ''I love thoughtful questions like that. Here's what I think...'']),
     (''help_requests'',
       [''I'm absolutely here to help! What specifically can I assist you with?'',
        ''Of course! I'd be delighted to help you with that.'',
        ''That's exactly what I'm here for! Let me see how I can help.'']),
     (''goodbye'',
       [''Goodbye! It was wonderful chatting with you. Have an amazing day!'',
        ''Take care! I really enjoyed our conversation. Until next time!'',
        ''See you later! Thanks for the great chat - come back anytime!'',
        ''Farewell! Hope to see you again soon!'']),
     (''weather'',
       [''I don't have access to current weather data, but I'd recommend checking a weather app or website for the most accurate information!'',
        ''For the most up-to-date weather information, I'd suggest checking your local weather service or a reliable weather app.'']),
     (''time'',
       [''I don't have access to the current time, but you can check your device's clock or ask your system for the time!'',
        ''For the current time, I'd recommend checking your computer or phone's clock display.'']),
     (''appreciation'',
       [''You're very welcome! I'm so glad I could help.'',
        ''It's my pleasure! That's what I'm here for.'',
        ''Happy to help! Feel free to ask if you need anything else.'']),
     (''default'',
       [''That's interesting! Tell me more about what you're thinking.'',
        ''I'd love to hear more about that. What's your perspective?'',
        ''That's a good point. What made you think of that?'',
        ''Hmm, that's worth exploring. What's your experience with that?'',
        ''I find that topic fascinating. What's your take on it?''])]"

definition keyword_table :: "(string \<times> string list) list" where
  "keyword_table =
    [(''greetings'', [''hello'', ''hi'', ''hey'', ''greetings'', ''good morning'', ''good afternoon'', ''good evening'']),
     (''personal_questions'', [''who are you'', ''what are you'', ''tell me about yourself'', ''your name'']),
     (''compliments'', [''thank you'', ''thanks'', ''good job'', ''well done'', ''excellent'', ''amazing'', ''awesome'']),
     (''questions'', [''what'', ''how'', ''why'', ''when'', ''where'', ''who'', ''?'']),
     (''help_requests'', [''help'', ''assist'', ''support'', ''can you'', ''could you'', ''would you'']),
     (''goodbye'', [''bye'', ''goodbye'', ''see you'', ''farewell'', ''later'', ''take care'']),
     (''weather'', [''weather'', ''temperature'', ''rain'', ''sunny'', ''cloudy'', ''storm'']),
     (''time'', [''time'', ''clock'', ''hour'', ''minute'', ''what time'']),
     (''appreciation'', [''thank you'', ''thanks'', ''appreciate'', ''grateful''])]"

subsection \<open>\<open>_categorize_message\<close>\<close>

text \<open>
  The inner loop of \<open>_categorize_message\<close>: one point for every keyword of the category
  that occurs in the message as a substring.
\<close>

fun score :: "string list \<Rightarrow> string \<Rightarrow> nat" where
  "score [] msg = 0"
| "score (keyword # rest) msg = (if str_in keyword msg then 1 else 0) + score rest msg"

definition category_scores :: "string \<Rightarrow> (string \<times> nat) list" where
  "category_scores msg = map (\<lambda>(category, kws). (category, score kws msg)) keyword_table"

text \<open>
  \<open>max(category_scores, key=category_scores.get)\<close>: Python's \<open>max\<close> keeps the first
  item whose key is maximal, so the running best is replaced only by a strictly larger
  score.
\<close>

fun max_by_score :: "string \<times> nat \<Rightarrow> (string \<times> nat) list \<Rightarrow> string \<times> nat" where
  "max_by_score best [] = best"
| "max_by_score best (x # xs) = max_by_score (if snd best < snd x then x else best) xs"

definition best_category :: "(string \<times> nat) list \<Rightarrow> string option" where
  "best_category scores =
     (case scores of
        [] \<Rightarrow> None
      | x # xs \<Rightarrow> (let best = max_by_score x xs in if 0 < snd best then Some (fst best) else None))"

definition categorize_message :: "string \<Rightarrow> string" where
  "categorize_message msg =
     (case best_category (category_scores msg) of
        Some category \<Rightarrow> category
      | None \<Rightarrow>
          if str_in ''?'' msg then ''questions''
          else if list_ex (\<lambda>word. str_in word msg) [''help'', ''assist'', ''support'']
          then ''help_requests''
          else ''default'')"

subsection \<open>\<open>get_response\<close>\<close>

text \<open>
  The state of a \<open>ChatbotManager\<close> that \<open>get_response\<close> touches: the conversation
  history and the per-name session context. The clock (\<open>datetime.now().isoformat()\<close>) and
  the random draw of \<open>random.choice\<close> are inputs of the model: \<open>now\<close> is the timestamp
  and \<open>rnd\<close> fixes the element drawn. Every list of \<open>responses\<close> is non-empty, so the
  draw never fails.
\<close>

record turn =
  user :: string
  message :: string
  timestamp :: string

record session_entry =
  message_count :: int
  topics :: "string list"

record chatbot =
  conversation_history :: "turn list"
  session_context :: "string \<rightharpoonup> session_entry"

definition choice :: "nat \<Rightarrow> 'a list \<Rightarrow> 'a" where
  "choice rnd xs = xs ! (rnd mod length xs)"

text \<open>Truth value of an \<open>Optional[str]\<close>: \<open>None\<close> and the empty string are false.\<close>

fun truthy :: "string option \<Rightarrow> bool" where
  "truthy None = False"
| "truthy (Some n) = (n \<noteq> [])"

definition record_turn :: "string \<Rightarrow> string \<Rightarrow> string option \<Rightarrow> chatbot \<Rightarrow> chatbot" where
  "record_turn now msg user_name st =
     st\<lparr>conversation_history := conversation_history st @
          [\<lparr>user = (case user_name of None \<Rightarrow> ''Unknown''
                     | Some n \<Rightarrow> if n = [] then ''Unknown'' else n),
            message = msg, timestamp = now\<rparr>]\<rparr>"

definition update_session :: "string option \<Rightarrow> chatbot \<Rightarrow> chatbot" where
  "update_session user_name st =
     (case user_name of
        None \<Rightarrow> st
      | Some n \<Rightarrow>
          if n = [] then st
          else
            (let ctx = (case session_context st n of
                          None \<Rightarrow> \<lparr>message_count = 0, topics = []\<rparr>
                        | Some c \<Rightarrow> c)
             in st\<lparr>session_context :=
                     (session_context st)(n \<mapsto> ctx\<lparr>message_count := message_count ctx + 1\<rparr>)\<rparr>))"

definition count_of :: "chatbot \<Rightarrow> string \<Rightarrow> int" where
  "count_of st n = (case session_context st n of None \<Rightarrow> 0 | Some c \<Rightarrow> message_count c)"

definition personalize :: "string \<Rightarrow> string option \<Rightarrow> chatbot \<Rightarrow> string \<Rightarrow> string" where
  "personalize response_category user_name st base_response =
     (case user_name of
        None \<Rightarrow> base_response
      | Some n \<Rightarrow>
          if n = [] \<or> response_category = ''goodbye'' then base_response
          else if response_category = ''greetings'' \<and> count_of st n = 1
          then ''Hello '' @ n @ ''! '' @ base_response
          else if response_category \<in> set [''questions'', ''help_requests'']
          then base_response @ '' What do you think, '' @ n @ ''?''
          else base_response)"

text \<open>
  \<open>self.responses[response_category]\<close> when the category is a key of the table, and
  \<open>self.responses['default']\<close> otherwise (a key the table has).
\<close>

definition responses_for :: "string \<Rightarrow> string list" where
  "responses_for category =
     (case map_of responses category of
        Some rs \<Rightarrow> rs
      | None \<Rightarrow> (case map_of responses ''default'' of Some rs \<Rightarrow> rs | None \<Rightarrow> []))"

definition get_response ::
  "string \<Rightarrow> nat \<Rightarrow> string \<Rightarrow> string option \<Rightarrow> chatbot \<Rightarrow> string \<times> chatbot" where
  "get_response now rnd msg user_name st =
     (let st' = update_session user_name (record_turn now msg user_name st);
          message_lower = strip (lower msg)
      in if message_lower = []
         then (''I didn't catch that. Could you please say something?'', st')
         else
           (let response_category = categorize_message message_lower;
                base_response = choice rnd (responses_for response_category)
            in (personalize response_category user_name st' base_response, st')))"

text \<open>
  A chatbot that has already seen three messages of \<open>alice\<close>, for the examples.
\<close>

definition alice3 :: chatbot where
  "alice3 = \<lparr>conversation_history = [],
             session_context = [''alice'' \<mapsto> \<lparr>message_count = 3, topics = []\<rparr>]\<rparr>"

section \<open>face_recognition_module.py: FaceRecognitionManager\<close>

subsection \<open>The store, the disk and the mutex\<close>

text \<open>
  A face signature is an opaque value of type \<open>'sig\<close>; the distance between two
  signatures, which the external library computes, is a parameter
  \<open>distance :: 'sig \<Rightarrow> 'sig \<Rightarrow> real\<close> of every operation that compares signatures.

  The manager keeps the two parallel lists and a \<open>QMutex\<close>. A \<open>QMutex\<close> is not
  recursive: \<open>lock()\<close> on a mutex that is already held does not return until the holder
  releases it, and never returns when the caller is the holder. \<open>mutex_locked\<close> records
  whether the mutex is held when an operation starts, and an operation that reaches
  \<open>lock()\<close> while it is held ends as \<open>Blocked\<close>, carrying the state it had reached.
\<close>

record 'sig manager =
  known_encodings :: "'sig list"
  known_names :: "string list"
  mutex_locked :: bool

text \<open>
  The database file, as \<open>load_database\<close> can find it: \<open>Unreadable\<close> is a file on which
  \<open>open\<close>, \<open>pickle.load\<close> or \<open>data.get\<close> raises (a truncated or foreign file);
  \<open>Pickled encs names\<close> is a pickled dictionary whose keys \<open>'encodings'\<close> and
  \<open>'names'\<close> hold the two lists, \<open>None\<close> standing for an absent key. The timestamp that
  \<open>save_database\<close> stores is never read back and is left out. A path with no file is
  \<open>None\<close> in the \<open>disk\<close> record.
\<close>

datatype 'sig stored = Unreadable | Pickled "'sig list option" "string list option"

record 'sig disk =
  database :: "'sig stored option"
  backup :: "'sig stored option"

datatype ('r, 'w) outcome = Returned 'r 'w | Blocked 'w

fun world_of :: "('r, 'w) outcome \<Rightarrow> 'w" where
  "world_of (Returned r w) = w"
| "world_of (Blocked w) = w"

text \<open>
  How the file system answers one \<open>save_database\<close>: whether \<open>os.rename\<close>, \<open>open\<close> and
  \<open>pickle.dump\<close> succeed. Each can raise, and the \<open>except\<close> clause of \<open>save_database\<close>
  catches whatever they raise.
\<close>

record io =
  rename_ok :: bool
  open_ok :: bool
  dump_ok :: bool

subsection \<open>\<open>load_database\<close>\<close>

definition load_database :: "'sig manager \<times> 'sig disk \<Rightarrow> (unit, 'sig manager \<times> 'sig disk) outcome" where
  "load_database w =
     (case w of (m, dk) \<Rightarrow>
        if mutex_locked m then Blocked (m, dk)
        else
          (case database dk of
             Some (Pickled encs names) \<Rightarrow>
               Returned ()
                 (m\<lparr>known_encodings := (case encs of None \<Rightarrow> [] | Some es \<Rightarrow> es),
                    known_names := (case names of None \<Rightarrow> [] | Some ns \<Rightarrow> ns),
                    mutex_locked := False\<rparr>, dk)
           | Some Unreadable \<Rightarrow>
               Returned () (m\<lparr>known_encodings := [], known_names := [], mutex_locked := False\<rparr>, dk)
           | None \<Rightarrow>
               Returned () (m\<lparr>known_encodings := [], known_names := [], mutex_locked := False\<rparr>, dk)))"

subsection \<open>\<open>save_database\<close>\<close>

text \<open>
  The disk after the body of \<open>save_database\<close>: an existing file is renamed to the backup
  path, then the database path is opened for writing (which creates or truncates it) and
  the dictionary is dumped. The first step that raises ends the body.
\<close>

definition write_database :: "io \<Rightarrow> 'sig manager \<Rightarrow> 'sig disk \<Rightarrow> 'sig disk" where
  "write_database f m dk =
     (if database dk \<noteq> None \<and> \<not> rename_ok f then dk
      else
        (let dk1 = (if database dk \<noteq> None then dk\<lparr>database := None, backup := database dk\<rparr> else dk)
         in if \<not> open_ok f then dk1
            else if \<not> dump_ok f then dk1\<lparr>database := Some Unreadable\<rparr>
            else dk1\<lparr>database := Some (Pickled (Some (known_encodings m)) (Some (known_names m)))\<rparr>))"

definition save_database ::
  "io \<Rightarrow> 'sig manager \<times> 'sig disk \<Rightarrow> (unit, 'sig manager \<times> 'sig disk) outcome" where
  "save_database f w =
     (case w of (m, dk) \<Rightarrow>
        if mutex_locked m then Blocked (m, dk)
        else Returned () (m\<lparr>mutex_locked := False\<rparr>, write_database f m dk))"

subsection \<open>\<open>identify_face\<close>\<close>

datatype py_error = IndexError | ValueError | CaptureError

text \<open>
  What the detector reports for one frame: the face boxes of \<open>face_locations\<close> and the
  signatures of \<open>face_encodings\<close>.
\<close>

record 'sig detection =
  face_locations :: "(int \<times> int \<times> int \<times> int) list"
  face_encodings :: "'sig list"

text \<open>
  Distances are real numbers; \<open>self.recognition_threshold = 0.6\<close> is the number 6/10.
\<close>

definition recognition_threshold :: real where
  "recognition_threshold = 6 / 10"

text \<open>
  The two library calls: \<open>face_distance\<close> gives the distance of every known signature to
  the query, \<open>compare_faces\<close> says for each whether it is within the tolerance.
\<close>

definition face_distance :: "('sig \<Rightarrow> 'sig \<Rightarrow> real) \<Rightarrow> 'sig list \<Rightarrow> 'sig \<Rightarrow> real list" where
  "face_distance distance known q = map (\<lambda>e. distance e q) known"

definition compare_faces :: "('sig \<Rightarrow> 'sig \<Rightarrow> real) \<Rightarrow> 'sig list \<Rightarrow> 'sig \<Rightarrow> real \<Rightarrow> bool list" where
  "compare_faces distance known q tolerance = map (\<lambda>x. x \<le> tolerance) (face_distance distance known q)"

text \<open>\<open>list.index\<close>: the first position of a value, \<open>None\<close> where Python raises.\<close>

fun index_of :: "'a \<Rightarrow> 'a list \<Rightarrow> nat option" where
  "index_of x [] = None"
| "index_of x (y # ys) = (if x = y then Some 0 else map_option Suc (index_of x ys))"

text \<open>\<open>np.argmin\<close>: the first position of the smallest value; it raises on an empty array.\<close>

definition argmin :: "real list \<Rightarrow> nat option" where
  "argmin ds = (case ds of [] \<Rightarrow> None | _ # _ \<Rightarrow> index_of (min_list ds) ds)"

text \<open>The body of the loop over the faces of the frame (lines 98 to 114).\<close>

definition identify_one ::
  "('sig \<Rightarrow> 'sig \<Rightarrow> real) \<Rightarrow> 'sig manager \<Rightarrow> 'sig \<Rightarrow> py_error + string option" where
  "identify_one distance m face_encoding =
     (let matches = compare_faces distance (known_encodings m) face_encoding recognition_threshold
      in if True \<in> set matches \<and> length (known_encodings m) > 0
         then
           (let face_distances = face_distance distance (known_encodings m) face_encoding
            in case argmin face_distances of
                 None \<Rightarrow> Inl ValueError
               | Some best_match_index \<Rightarrow>
                   if matches ! best_match_index
                      \<and> face_distances ! best_match_index < recognition_threshold
                   then (if best_match_index < length (known_names m)
                         then Inr (Some (known_names m ! best_match_index))
                         else Inl IndexError)
                   else Inr None)
         else Inr None)"

fun identify_all ::
  "('sig \<Rightarrow> 'sig \<Rightarrow> real) \<Rightarrow> 'sig manager \<Rightarrow> 'sig list \<Rightarrow> py_error + string option list" where
  "identify_all distance m [] = Inr []"
| "identify_all distance m (face_encoding # rest) =
     (case identify_one distance m face_encoding of
        Inl e \<Rightarrow> Inl e
      | Inr name \<Rightarrow>
          (case identify_all distance m rest of
             Inl e \<Rightarrow> Inl e
           | Inr names \<Rightarrow> Inr (name # names)))"

text \<open>
  \<open>identify_face\<close>: the frame is \<open>None\<close> when the caller passes no frame or an empty one.
  The rectangles and labels drawn on the frame change no value that is returned. The result
  is the first name when it is a non-empty string.
\<close>

definition identify_face ::
  "('sig \<Rightarrow> 'sig \<Rightarrow> real) \<Rightarrow> 'sig manager \<Rightarrow> 'sig detection option \<Rightarrow> py_error + string option" where
  "identify_face distance m frame =
     (case frame of
        None \<Rightarrow> Inr None
      | Some det \<Rightarrow>
          if face_locations det = [] then Inr None
          else
            (case identify_all distance m (face_encodings det) of
               Inl e \<Rightarrow> Inl e
             | Inr face_names \<Rightarrow>
                 (case face_names of
                    [] \<Rightarrow> Inr None
                  | first # _ \<Rightarrow> if truthy first then Inr first else Inr None)))"

subsection \<open>\<open>register_new_user\<close>\<close>

text \<open>
  One pass of the capture loop: \<open>cap.read()\<close> gives no frame (\<open>ReadFailed\<close>), or a
  frame with what the detector finds in it (\<open>Frame\<close>), or a call of the pass raises
  (\<open>Raised\<close>), which ends the loop in the \<open>except\<close> clause.
\<close>

datatype 'sig attempt = ReadFailed | Frame "'sig detection" | Raised

text \<open>Lines 173 to 179: the distance of a new signature to the nearest known one.\<close>

definition min_distance :: "('sig \<Rightarrow> 'sig \<Rightarrow> real) \<Rightarrow> 'sig list \<Rightarrow> 'sig \<Rightarrow> real" where
  "min_distance distance known encoding =
     (if length known > 0 then min_list (face_distance distance known encoding) else 0)"

text \<open>
  \<open>best_confidence\<close> starts as \<open>float('inf')\<close>, here \<open>None\<close>; every distance is below
  it.
\<close>

fun below :: "real \<Rightarrow> real option \<Rightarrow> bool" where
  "below x None = True"
| "below x (Some best_confidence) = (x < best_confidence)"

fun capture_loop ::
  "('sig \<Rightarrow> 'sig \<Rightarrow> real) \<Rightarrow> 'sig list \<Rightarrow> 'sig attempt list \<Rightarrow> 'sig option \<times> real option
     \<Rightarrow> py_error + ('sig option \<times> real option)" where
  "capture_loop distance known [] best = Inr best"
| "capture_loop distance known (ReadFailed # rest) best = capture_loop distance known rest best"
| "capture_loop distance known (Raised # rest) best = Inl CaptureError"
| "capture_loop distance known (Frame det # rest) best =
     (if length (face_locations det) = 1
      then
        (case face_encodings det of
           [] \<Rightarrow> capture_loop distance known rest best
         | encoding # _ \<Rightarrow>
             if below (min_distance distance known encoding) (snd best)
             then capture_loop distance known rest
                    (Some encoding, Some (min_distance distance known encoding))
             else capture_loop distance known rest best)
      else capture_loop distance known rest best)"

definition register_new_user ::
  "('sig \<Rightarrow> 'sig \<Rightarrow> real) \<Rightarrow> io \<Rightarrow> 'sig attempt list \<Rightarrow> 'sig manager \<times> 'sig disk \<Rightarrow> string
     \<Rightarrow> (bool, 'sig manager \<times> 'sig disk) outcome" where
  "register_new_user distance f attempts w name =
     (case w of (m, dk) \<Rightarrow>
        (case capture_loop distance (known_encodings m) attempts (None, None) of
           Inl e \<Rightarrow> Returned False (m, dk)
         | Inr (None, best_confidence) \<Rightarrow> Returned False (m, dk)
         | Inr (Some best_encoding, best_confidence) \<Rightarrow>
             (case save_database f
                     (m\<lparr>known_encodings := known_encodings m @ [best_encoding],
                        known_names := known_names m @ [name]\<rparr>, dk) of
                Blocked w' \<Rightarrow> Blocked w'
              | Returned u w' \<Rightarrow> Returned True w')))"

subsection \<open>\<open>remove_user\<close>\<close>

text \<open>\<open>list.pop(index)\<close> for an index inside the list.\<close>

definition pop :: "nat \<Rightarrow> 'a list \<Rightarrow> 'a list" where
  "pop i xs = take i xs @ drop (Suc i) xs"

text \<open>
  \<open>remove_user\<close> takes the mutex, removes the first entry of the name from both lists and
  calls \<open>save_database\<close> while it still holds the mutex. When the list of signatures is
  too short for the index, \<open>pop\<close> raises after the name is gone, the \<open>except\<close> clause
  catches it and the result is \<open>False\<close>.
\<close>

definition remove_user ::
  "io \<Rightarrow> 'sig manager \<times> 'sig disk \<Rightarrow> string \<Rightarrow> (bool, 'sig manager \<times> 'sig disk) outcome" where
  "remove_user f w name =
     (case w of (m, dk) \<Rightarrow>
        if mutex_locked m then Blocked (m, dk)
        else
          (case index_of name (known_names m) of
             None \<Rightarrow> Returned False (m\<lparr>mutex_locked := False\<rparr>, dk)
           | Some index \<Rightarrow>
               if index < length (known_encodings m)
               then
                 (case save_database f
                         (m\<lparr>known_names := pop index (known_names m),
                            known_encodings := pop index (known_encodings m),
                            mutex_locked := True\<rparr>, dk) of
                    Blocked w' \<Rightarrow> Blocked w'
                  | Returned u (m', dk') \<Rightarrow> Returned True (m'\<lparr>mutex_locked := False\<rparr>, dk'))
               else
                 Returned False
                   (m\<lparr>known_names := pop index (known_names m), mutex_locked := False\<rparr>, dk)))"

subsection \<open>Notions used to state the properties\<close>

text \<open>The store as a list of (name, signature) pairs.\<close>

definition entries :: "'sig manager \<Rightarrow> (string \<times> 'sig) list" where
  "entries m = zip (known_names m) (known_encodings m)"

text \<open>
  The candidate signatures of a registration: the first signature of every frame in which
  the detector found exactly one face.
\<close>

fun candidate_signatures :: "'sig attempt list \<Rightarrow> 'sig list" where
  "candidate_signatures [] = []"
| "candidate_signatures (Frame det # rest) =
     (if length (face_locations det) = 1
      then take 1 (face_encodings det) @ candidate_signatures rest
      else candidate_signatures rest)"
| "candidate_signatures (a # rest) = candidate_signatures rest"

text \<open>A save fails when one of the steps it reaches raises.\<close>

definition persist_fails :: "io \<Rightarrow> 'sig disk \<Rightarrow> bool" where
  "persist_fails f dk = ((database dk \<noteq> None \<and> \<not> rename_ok f) \<or> \<not> open_ok f \<or> \<not> dump_ok f)"

text \<open>The distance used in the examples: signatures are numbers, \<open>absd a b = \<bar>a - b\<bar>\<close>.\<close>

definition absd :: "real \<Rightarrow> real \<Rightarrow> real" where
  "absd a b = \<bar>a - b\<bar>"

definition one_face :: "'sig \<Rightarrow> 'sig detection" where
  "one_face e = \<lparr>face_locations = [(0, 10, 10, 0)], face_encodings = [e]\<rparr>"

text \<open>
  What \<open>load_database\<close> reads from a database path: the lists under the two keys, empty
  for an absent key, an unreadable file or no file.
\<close>

fun stored_names :: "'sig stored option \<Rightarrow> string list" where
  "stored_names (Some (Pickled encs (Some ns))) = ns"
| "stored_names other = []"

fun stored_encodings :: "'sig stored option \<Rightarrow> 'sig list" where
  "stored_encodings (Some (Pickled (Some es) names)) = es"
| "stored_encodings other = []"

text \<open>The stores, disks and file systems of the examples.\<close>

definition store_alice :: "real manager" where
  "store_alice = \<lparr>known_encodings = [0], known_names = [''alice''], mutex_locked = False\<rparr>"

definition store_alice_held :: "real manager" where
  "store_alice_held = \<lparr>known_encodings = [0], known_names = [''alice''], mutex_locked = True\<rparr>"

definition store_unnamed :: "real manager" where
  "store_unnamed = \<lparr>known_encodings = [0], known_names = [''''], mutex_locked = False\<rparr>"

definition store_empty :: "real manager" where
  "store_empty = \<lparr>known_encodings = [], known_names = [], mutex_locked = False\<rparr>"

definition no_files :: "real disk" where
  "no_files = \<lparr>database = None, backup = None\<rparr>"

definition io_ok :: io where
  "io_ok = \<lparr>rename_ok = True, open_ok = True, dump_ok = True\<rparr>"

definition io_dump_fails :: io where
  "io_dump_fails = \<lparr>rename_ok = True, open_ok = True, dump_ok = False\<rparr>"

definition disk_names_missing :: "real disk" where
  "disk_names_missing = \<lparr>database = Some (Pickled (Some [1]) None), backup = None\<rparr>"

definition store_nameless :: "real manager" where
  "store_nameless = \<lparr>known_encodings = [0], known_names = [], mutex_locked = False\<rparr>"

section \<open>Properties of the categorizer\<close>

lemma max_by_score_keep:
  "\<forall>y\<in>set xs. snd y \<le> snd best \<Longrightarrow> max_by_score best xs = best"
  by (induction xs) auto

lemma max_by_score_skip:
  "snd best < snd x \<Longrightarrow> \<forall>y\<in>set pre. snd y < snd x \<Longrightarrow>
   max_by_score best (pre @ x # post) = max_by_score x post"
  by (induction pre arbitrary: best) auto

lemma best_category_first_max:
  assumes "0 < snd x" "\<forall>y\<in>set pre. snd y < snd x" "\<forall>y\<in>set post. snd y \<le> snd x"
  shows "best_category (pre @ x # post) = Some (fst x)"
proof (cases pre)
  case Nil
  with assms show ?thesis by (simp add: best_category_def max_by_score_keep)
next
  case (Cons p ps)
  with assms have "max_by_score p (ps @ x # post) = max_by_score x post"
    by (intro max_by_score_skip) auto
  with assms Cons show ?thesis by (simp add: best_category_def max_by_score_keep)
qed

lemma categorize_first_max:
  assumes tbl: "keyword_table = pre @ (category, kws) # post"
    and pos: "0 < score kws msg"
    and before: "\<forall>e\<in>set pre. score (snd e) msg < score kws msg"
    and after: "\<forall>e\<in>set post. score (snd e) msg \<le> score kws msg"
  shows "categorize_message msg = category"
proof -
  let ?f = "\<lambda>(c, ks). (c, score ks msg)"
  have "category_scores msg = map ?f pre @ (category, score kws msg) # map ?f post"
    by (simp add: category_scores_def tbl)
  moreover have "\<forall>y\<in>set (map ?f pre). snd y < score kws msg"
    using before by (auto simp: case_prod_beta)
  moreover have "\<forall>y\<in>set (map ?f post). snd y \<le> score kws msg"
    using after by (auto simp: case_prod_beta)
  ultimately have "best_category (category_scores msg) = Some category"
    using best_category_first_max [of "(category, score kws msg)" "map ?f pre" "map ?f post"] pos
    by simp
  then show ?thesis by (simp add: categorize_message_def)
qed

lemma score_zero: "\<forall>k\<in>set kws. \<not> str_in k msg \<Longrightarrow> score kws msg = 0"
  by (induction kws) auto

text \<open>
  Claim C5. When the largest keyword score is positive, \<open>_categorize_message\<close> returns the
  first category of the table, in the order of the source, that reaches it: a category
  wins when its score is positive, every category before it scores strictly less and every
  category after it scores no more. With the table of the source, \<open>hello\<close> is a greeting,
  \<open>thanks so much\<close> is a compliment (\<open>compliments\<close> stands before \<open>appreciation\<close>,
  which scores the same), and \<open>banana\<close> falls to the default.
\<close>

theorem categorize_tie_first_enumerated:
  "(\<forall>pre category kws post.
      keyword_table = pre @ (category, kws) # post \<and> 0 < score kws msg \<and>
      (\<forall>e\<in>set pre. score (snd e) msg < score kws msg) \<and>
      (\<forall>e\<in>set post. score (snd e) msg \<le> score kws msg)
      \<longrightarrow> categorize_message msg = category)
   \<and> categorize_message ''hello'' = ''greetings''
   \<and> categorize_message ''thanks so much'' = ''compliments''
   \<and> categorize_message ''banana'' = ''default''"
proof (intro conjI allI impI)
  fix pre category kws post
  assume "keyword_table = pre @ (category, kws) # post \<and> 0 < score kws msg \<and>
      (\<forall>e\<in>set pre. score (snd e) msg < score kws msg) \<and>
      (\<forall>e\<in>set post. score (snd e) msg \<le> score kws msg)"
  then show "categorize_message msg = category"
    using categorize_first_max by blast
next
  show "categorize_message ''hello'' = ''greetings''" by code_simp
next
  show "categorize_message ''thanks so much'' = ''compliments''" by code_simp
next
  show "categorize_message ''banana'' = ''default''" by code_simp
qed

text \<open>
  The message \<open>thanks, bye\<close> scores one point for \<open>compliments\<close>, \<open>goodbye\<close> and
  \<open>appreciation\<close> and none elsewhere; the first of the three wins.
\<close>

theorem categorize_tie_first_enumerated_witness:
  "keyword_table =
     take 2 keyword_table @
     (''compliments'', [''thank you'', ''thanks'', ''good job'', ''well done'', ''excellent'',
        ''amazing'', ''awesome'']) # drop 3 keyword_table
   \<and> score [''thank you'', ''thanks'', ''good job'', ''well done'', ''excellent'',
        ''amazing'', ''awesome''] ''thanks, bye'' = 1
   \<and> list_all (\<lambda>e. score (snd e) ''thanks, bye'' < 1) (take 2 keyword_table)
   \<and> list_all (\<lambda>e. score (snd e) ''thanks, bye'' \<le> 1) (drop 3 keyword_table)
   \<and> map (\<lambda>e. score (snd e) ''thanks, bye'') (drop 3 keyword_table) = [0, 0, 1, 0, 0, 1]
   \<and> categorize_message ''thanks, bye'' = ''compliments''"
proof -
  let ?kws = "[''thank you'', ''thanks'', ''good job'', ''well done'', ''excellent'',
        ''amazing'', ''awesome'']"
  have t: "keyword_table = take 2 keyword_table @ (''compliments'', ?kws) # drop 3 keyword_table"
    by (simp add: keyword_table_def)
  have s: "score ?kws ''thanks, bye'' = 1" by code_simp
  have b: "list_all (\<lambda>e. score (snd e) ''thanks, bye'' < 1) (take 2 keyword_table)"
    by code_simp
  have a: "list_all (\<lambda>e. score (snd e) ''thanks, bye'' \<le> 1) (drop 3 keyword_table)"
    by code_simp
  have m: "map (\<lambda>e. score (snd e) ''thanks, bye'') (drop 3 keyword_table) = [0, 0, 1, 0, 0, 1]"
    by code_simp
  have "categorize_message ''thanks, bye'' = ''compliments''"
    using categorize_tie_first_enumerated [of "''thanks, bye''"] t s b a
    unfolding list_all_iff by (metis zero_less_one)
  with t s b a m show ?thesis by blast
qed

text \<open>
  The question mark is itself a keyword of \<open>questions\<close>, so a message that holds it
  always holds a keyword.
\<close>

lemma question_mark_is_keyword:
  "str_in ''?'' msg \<Longrightarrow> \<exists>e\<in>set keyword_table. \<exists>k\<in>set (snd e). str_in k msg"
  by (auto simp: keyword_table_def)

text \<open>
  Claim C6. A message that contains \<open>?\<close> and no keyword of any category other than
  \<open>?\<close> itself is categorized as \<open>questions\<close>. (A message with \<open>?\<close> and no keyword at
  all does not exist, by \<open>question_mark_is_keyword\<close>; the statement covers every message
  the claim speaks of.)
\<close>

theorem question_mark_only:
  assumes q: "str_in ''?'' msg"
    and none: "\<forall>e\<in>set keyword_table. \<forall>k\<in>set (snd e). k \<noteq> ''?'' \<longrightarrow> \<not> str_in k msg"
  shows "categorize_message msg = ''questions''"
proof -
  let ?qs = "[''what'', ''how'', ''why'', ''when'', ''where'', ''who'', ''?'']"
  have t: "keyword_table = take 3 keyword_table @ (''questions'', ?qs) # drop 4 keyword_table"
    by (simp add: keyword_table_def)
  have "\<forall>e\<in>set (take 3 keyword_table). \<forall>k\<in>set (snd e). \<not> str_in k msg"
    using none by (simp add: keyword_table_def)
  then have b: "\<forall>e\<in>set (take 3 keyword_table). score (snd e) msg = 0"
    by (simp add: score_zero)
  have "\<forall>e\<in>set (drop 4 keyword_table). \<forall>k\<in>set (snd e). \<not> str_in k msg"
    using none by (simp add: keyword_table_def)
  then have a: "\<forall>e\<in>set (drop 4 keyword_table). score (snd e) msg = 0"
    by (simp add: score_zero)
  have s: "score ?qs msg = 1"
    using none q by (simp add: keyword_table_def)
  show ?thesis
  proof (rule categorize_first_max [OF t])
    show "0 < score ?qs msg" unfolding s by simp
    show "\<forall>e\<in>set (take 3 keyword_table). score (snd e) msg < score ?qs msg"
      unfolding s using b by simp
    show "\<forall>e\<in>set (drop 4 keyword_table). score (snd e) msg \<le> score ?qs msg"
      unfolding s using a by simp
  qed
qed

theorem question_mark_only_witness:
  "str_in ''?'' ''banana?''
   \<and> list_all (\<lambda>e. list_all (\<lambda>k. k = ''?'' \<or> \<not> str_in k ''banana?'') (snd e)) keyword_table
   \<and> categorize_message ''banana?'' = ''questions''"
proof -
  have q: "str_in ''?'' ''banana?''" by code_simp
  have n: "list_all (\<lambda>e. list_all (\<lambda>k. k = ''?'' \<or> \<not> str_in k ''banana?'') (snd e)) keyword_table"
    by code_simp
  have "categorize_message ''banana?'' = ''questions''"
    using question_mark_only [OF q] n unfolding list_all_iff by blast
  with q n show ?thesis by blast
qed

section \<open>Properties of \<open>get_response\<close>\<close>

lemma isspace_lower_char: "isspace (lower_char c) = isspace c"
  by (auto simp: isspace_def lower_char_def Let_def)

lemma strip_whitespace_only:
  assumes "\<forall>c\<in>set s. isspace c"
  shows "strip (lower s) = []"
proof -
  have "\<forall>c\<in>set (lower s). isspace c"
    using assms by (auto simp: lower_def isspace_lower_char)
  then have d: "dropWhile isspace (lower s) = []" by (simp only: dropWhile_eq_Nil_conv)
  show ?thesis unfolding strip_def d by simp
qed

text \<open>
  Claim C2, as the code has it. For an empty or whitespace-only message \<open>get_response\<close>
  returns the fixed prompt, whatever the random draw and without looking at the categorizer's
  tables. The call has already recorded the turn in the history and updated the session
  context when it reaches the test: with no user name, or an empty one, no counter changes;
  with a non-empty user name that name's \<open>message_count\<close> is one more than before (a name
  not seen before counts from zero) and every other name's entry is unchanged.
\<close>

theorem empty_input_prompt:
  assumes ws: "\<forall>c\<in>set msg. isspace c"
  shows "fst (get_response now rnd msg user_name st)
           = ''I didn't catch that. Could you please say something?''
       \<and> conversation_history (snd (get_response now rnd msg user_name st))
           = conversation_history st @
             [\<lparr>user = (case user_name of None \<Rightarrow> ''Unknown''
                       | Some n \<Rightarrow> if n = [] then ''Unknown'' else n),
               message = msg, timestamp = now\<rparr>]
       \<and> (\<not> truthy user_name \<longrightarrow>
            session_context (snd (get_response now rnd msg user_name st)) = session_context st)
       \<and> (\<forall>n. user_name = Some n \<and> n \<noteq> [] \<longrightarrow>
            count_of (snd (get_response now rnd msg user_name st)) n = count_of st n + 1
            \<and> (\<forall>n'. n' \<noteq> n \<longrightarrow>
                 session_context (snd (get_response now rnd msg user_name st)) n'
                   = session_context st n'))"
proof -
  have r: "get_response now rnd msg user_name st =
        (''I didn't catch that. Could you please say something?'',
         update_session user_name (record_turn now msg user_name st))"
    using strip_whitespace_only [OF ws] by (simp add: get_response_def)
  show ?thesis
    unfolding r
    by (cases user_name)
       (auto simp: update_session_def record_turn_def count_of_def Let_def split: option.splits)
qed

theorem empty_input_prompt_witness:
  "list_all isspace ''   ''
   \<and> fst (get_response ''t'' 0 ''   '' (Some ''alice'') alice3)
       = ''I didn't catch that. Could you please say something?''
   \<and> count_of alice3 ''alice'' = 3
   \<and> count_of (snd (get_response ''t'' 0 ''   '' (Some ''alice'') alice3)) ''alice'' = 4"
proof -
  have w: "list_all isspace ''   ''" by (simp add: isspace_def)
  then have h: "\<forall>c\<in>set ''   ''. isspace c" unfolding list_all_iff .
  have c: "count_of alice3 ''alice'' = 3" by (simp add: count_of_def alice3_def)
  from empty_input_prompt [OF h, of "''t''" 0 "Some ''alice''" alice3] w c
  show ?thesis by simp
qed

text \<open>
  A message made of the no-break space and the next-line control is whitespace only, and is
  answered with the prompt.
\<close>

lemma latin1_whitespace_prompt:
  "list_all isspace [CHR 0xA0, CHR 0x85]
   \<and> fst (get_response ''t'' 0 [CHR 0xA0, CHR 0x85] None alice3)
       = ''I didn't catch that. Could you please say something?''"
  by (simp add: isspace_def get_response_def strip_def lower_def lower_char_def Let_def)

text \<open>
  The claim as the specification states it fails: a whitespace-only message sent under the
  name \<open>alice\<close> moves her counter from 3 to 4.
\<close>

theorem empty_input_advances_counter:
  "list_all isspace ''   ''
   \<and> count_of alice3 ''alice'' = 3
   \<and> get_response ''t'' 0 ''   '' (Some ''alice'') alice3
       = (''I didn't catch that. Could you please say something?'',
          \<lparr>conversation_history = [\<lparr>user = ''alice'', message = ''   '', timestamp = ''t''\<rparr>],
            session_context = [''alice'' \<mapsto> \<lparr>message_count = 4, topics = []\<rparr>]\<rparr>)"
  by (simp add: isspace_def count_of_def alice3_def get_response_def update_session_def
      record_turn_def strip_def lower_def lower_char_def Let_def)

section \<open>Properties of the identity store\<close>

subsection \<open>Registration\<close>


lemma capture_loop_raised:
  "Raised \<in> set attempts \<Longrightarrow> capture_loop distance known attempts best = Inl CaptureError"
  by (induction distance known attempts best rule: capture_loop.induct)
     (auto split: list.splits)

lemma capture_loop_candidates:
  "Raised \<notin> set attempts \<Longrightarrow>
   capture_loop distance known attempts best =
     Inr (foldl (\<lambda>b c. if below (min_distance distance known c) (snd b)
                        then (Some c, Some (min_distance distance known c)) else b)
            best (candidate_signatures attempts))"
  by (induction distance known attempts best rule: capture_loop.induct)
     (auto split: list.splits)

lemma arg_min_list_step:
  fixes g :: "'a \<Rightarrow> real"
  shows "arg_min_list g (b # c # cs) = arg_min_list g ((if g c < g b then c else b) # cs)"
  by (cases cs) (auto simp: Let_def)

lemma foldl_select:
  fixes g :: "'a \<Rightarrow> real"
  shows "foldl (\<lambda>b c. if below (g c) (snd b) then (Some c, Some (g c)) else b)
           (Some b, Some (g b)) cs
         = (Some (arg_min_list g (b # cs)), Some (g (arg_min_list g (b # cs))))"
proof (induction cs arbitrary: b)
  case Nil
  show ?case by simp
next
  case (Cons c cs)
  show ?case
    unfolding arg_min_list_step [of g b c cs]
    using Cons [of c] Cons [of b] by simp
qed

lemma save_database_free:
  "\<not> mutex_locked m \<Longrightarrow> save_database f (m, dk) = Returned () (m, write_database f m dk)"
  by (simp add: save_database_def)

lemma save_database_held:
  "mutex_locked m \<Longrightarrow> save_database f (m, dk) = Blocked (m, dk)"
  by (simp add: save_database_def)

lemma register_eq:
  "register_new_user distance f attempts (m, dk) name =
     (if Raised \<in> set attempts then Returned False (m, dk)
      else case candidate_signatures attempts of
             [] \<Rightarrow> Returned False (m, dk)
           | c # cs \<Rightarrow>
               (let chosen = arg_min_list (min_distance distance (known_encodings m)) (c # cs);
                    m' = m\<lparr>known_encodings := known_encodings m @ [chosen],
                           known_names := known_names m @ [name]\<rparr>
                in if mutex_locked m then Blocked (m', dk)
                   else Returned True (m', write_database f m' dk)))"
proof (cases "Raised \<in> set attempts")
  case True
  then show ?thesis by (simp add: register_new_user_def capture_loop_raised)
next
  case False
  show ?thesis
  proof (cases "candidate_signatures attempts")
    case Nil
    with False show ?thesis
      by (simp add: register_new_user_def capture_loop_candidates)
  next
    case (Cons c cs)
    with False show ?thesis
      by (simp add: register_new_user_def capture_loop_candidates foldl_select
          save_database_def Let_def)
  qed
qed

text \<open>
  Claim C1, as the code has it. When no pass of the capture loop raises and the mutex is
  free: with no candidate signature the registration returns \<open>False\<close> and changes neither
  the store nor the disk; otherwise it chooses the first candidate whose distance to the
  nearest stored signature is smallest (every candidate counts as distance 0 when the
  store is empty), appends it and the name, runs \<open>save_database\<close> and returns \<open>True\<close>.
\<close>

theorem register_selects_nearest:
  assumes free: "\<not> mutex_locked m" and quiet: "Raised \<notin> set attempts"
  shows "(candidate_signatures attempts = [] \<longrightarrow>
            register_new_user distance f attempts (m, dk) name = Returned False (m, dk))
       \<and> (candidate_signatures attempts \<noteq> [] \<longrightarrow>
            (let chosen = arg_min_list (min_distance distance (known_encodings m))
                            (candidate_signatures attempts);
                 m' = m\<lparr>known_encodings := known_encodings m @ [chosen],
                        known_names := known_names m @ [name]\<rparr>
             in chosen \<in> set (candidate_signatures attempts)
                \<and> (\<forall>c\<in>set (candidate_signatures attempts).
                      min_distance distance (known_encodings m) chosen
                        \<le> min_distance distance (known_encodings m) c)
                \<and> register_new_user distance f attempts (m, dk) name
                    = Returned True (m', write_database f m' dk)))"
proof (cases "candidate_signatures attempts")
  case Nil
  with quiet show ?thesis by (simp add: register_eq)
next
  case (Cons c cs)
  let ?g = "min_distance distance (known_encodings m)"
  have ne: "c # cs \<noteq> []" by simp
  have "?g (arg_min_list ?g (c # cs)) = Min (?g ` set (c # cs))"
    by (rule f_arg_min_list_f [OF ne])
  then have least: "\<forall>x\<in>set (c # cs). ?g (arg_min_list ?g (c # cs)) \<le> ?g x"
    by simp
  have mem: "arg_min_list ?g (c # cs) \<in> set (c # cs)"
    by (rule arg_min_list_in [OF ne])
  show ?thesis
    unfolding Cons Let_def using least mem free quiet
    by (simp add: register_eq Cons Let_def)
qed

theorem register_selects_nearest_witness:
  "\<not> mutex_locked store_alice
   \<and> Raised \<notin> set [Frame (one_face 5), ReadFailed, Frame (one_face (1::real))]
   \<and> candidate_signatures [Frame (one_face 5), ReadFailed, Frame (one_face (1::real))] = [5, 1]
   \<and> register_new_user absd io_ok [Frame (one_face 5), ReadFailed, Frame (one_face 1)]
        (store_alice, no_files) ''bob''
      = Returned True
          (\<lparr>known_encodings = [0, 1], known_names = [''alice'', ''bob''], mutex_locked = False\<rparr>,
           \<lparr>database = Some (Pickled (Some [0, 1]) (Some [''alice'', ''bob''])), backup = None\<rparr>)"
proof -
  let ?atts = "[Frame (one_face 5), ReadFailed, Frame (one_face (1::real))]"
  have a: "\<not> mutex_locked store_alice" by (simp add: store_alice_def)
  have b: "Raised \<notin> set ?atts" by simp
  have c: "candidate_signatures ?atts = [5, 1]" by (simp add: one_face_def)
  have g: "min_distance absd (known_encodings store_alice) 5 = 5"
      "min_distance absd (known_encodings store_alice) 1 = 1"
    by (simp_all add: min_distance_def face_distance_def absd_def store_alice_def)
  from register_selects_nearest [OF a b, of absd io_ok no_files "''bob''"]
  show ?thesis
    using a b c g
    by (simp add: Let_def write_database_def io_ok_def no_files_def store_alice_def)
qed

text \<open>
  The claim as the specification states it fails: with one stored signature 0 and the
  candidates 5 and 1, the candidate farthest from the store is 5, and the code registers 1.
\<close>

theorem register_not_most_distinct:
  "register_new_user absd io_ok [Frame (one_face 5), Frame (one_face 1)]
        (store_alice, no_files) ''bob''
      = Returned True
          (\<lparr>known_encodings = [0, 1], known_names = [''alice'', ''bob''], mutex_locked = False\<rparr>,
           \<lparr>database = Some (Pickled (Some [0, 1]) (Some [''alice'', ''bob''])), backup = None\<rparr>)
   \<and> min_list (face_distance absd (known_encodings store_alice) 1) = 1
   \<and> min_list (face_distance absd (known_encodings store_alice) 5) = 5"
  by (simp add: register_new_user_def one_face_def min_distance_def face_distance_def absd_def
      save_database_def write_database_def io_ok_def no_files_def store_alice_def)


subsection \<open>Helper facts on the store operations\<close>

lemma unlock_free: "\<not> mutex_locked m \<Longrightarrow> m\<lparr>mutex_locked := False\<rparr> = m"
  by (cases m) simp

lemma load_database_eq:
  "load_database (m, dk) =
     (if mutex_locked m then Blocked (m, dk)
      else Returned ()
             (m\<lparr>known_encodings := stored_encodings (database dk),
                known_names := stored_names (database dk), mutex_locked := False\<rparr>, dk))"
proof (cases "database dk")
  case None
  then show ?thesis by (simp add: load_database_def)
next
  case (Some content)
  then show ?thesis
    by (cases content) (auto simp: load_database_def split: option.splits)
qed

lemma remove_user_eq:
  "remove_user f (m, dk) name =
     (if mutex_locked m then Blocked (m, dk)
      else case index_of name (known_names m) of
             None \<Rightarrow> Returned False (m, dk)
           | Some i \<Rightarrow>
               if i < length (known_encodings m)
               then Blocked (m\<lparr>known_names := pop i (known_names m),
                               known_encodings := pop i (known_encodings m),
                               mutex_locked := True\<rparr>, dk)
               else Returned False (m\<lparr>known_names := pop i (known_names m)\<rparr>, dk))"
  by (cases m) (auto simp: remove_user_def save_database_def split: option.splits)

lemma index_of_None: "index_of x xs = None \<longleftrightarrow> x \<notin> set xs"
  by (induction xs) auto

lemma index_of_Some:
  "index_of x xs = Some i \<Longrightarrow> i < length xs \<and> xs ! i = x \<and> (\<forall>j<i. xs ! j \<noteq> x)"
proof (induction xs arbitrary: i)
  case Nil
  then show ?case by simp
next
  case (Cons y ys)
  show ?case
  proof (cases "x = y")
    case True
    with Cons.prems show ?thesis by simp
  next
    case False
    with Cons.prems obtain k where k: "index_of x ys = Some k" "i = Suc k" by auto
    from Cons.IH [OF k(1)] False k(2) show ?thesis
      by (auto simp: nth_Cons split: nat.splits)
  qed
qed

lemma distinct_pop: "distinct xs \<Longrightarrow> distinct (pop i xs)"
proof -
  assume d: "distinct xs"
  have "set (drop (Suc i) xs) \<subseteq> set (drop i xs)"
    by (rule set_drop_subset_set_drop) simp
  moreover have "set (take i xs) \<inter> set (drop i xs) = {}"
    using d by (metis append_take_drop_id distinct_append)
  ultimately show ?thesis
    using d by (auto simp: pop_def)
qed

lemma length_pop: "i < length xs \<Longrightarrow> Suc (length (pop i xs)) = length xs"
  by (simp add: pop_def)

lemma zip_pop: "length xs = length ys \<Longrightarrow> zip (pop i xs) (pop i ys) = pop i (zip xs ys)"
  by (simp add: pop_def take_zip drop_zip)

lemma register_world:
  "fst (world_of (register_new_user distance f attempts (m, dk) name)) =
     (if Raised \<in> set attempts \<or> candidate_signatures attempts = [] then m
      else m\<lparr>known_encodings := known_encodings m @
                 [arg_min_list (min_distance distance (known_encodings m))
                    (candidate_signatures attempts)],
              known_names := known_names m @ [name]\<rparr>)"
  by (auto simp: register_eq Let_def split: list.splits)


subsection \<open>Names\<close>

text \<open>
  \<open>remove_user\<close> on a registered name calls \<open>save_database\<close> while it holds the mutex,
  and \<open>save_database\<close> locks the same mutex first: the call waits on itself and does not
  return (\<open>remove_user_eq\<close>). Both lists have lost the entry by then. The properties
  below speak of the store in which a call ends, \<open>fst (world_of outcome)\<close>, whether the
  call returned or not.
\<close>

text \<open>
  Claim C3, as the code has it. From a store whose names are pairwise different,
  \<open>remove_user\<close> leaves them pairwise different; \<open>register_new_user\<close> leaves them
  pairwise different when the name is not registered yet, and for a name that is already
  registered exactly when it appends nothing (a pass raised, or no candidate was gathered):
  it never looks the name up, so a successful registration of a registered name adds a second
  entry. \<open>load_database\<close> replaces the names by those of the file, whatever they are.
\<close>

theorem names_distinct_preserved:
  assumes d: "distinct (known_names m)"
  shows "distinct (known_names (fst (world_of (remove_user f (m, dk) name))))
       \<and> (name \<notin> set (known_names m) \<longrightarrow>
            distinct (known_names (fst (world_of
              (register_new_user distance f attempts (m, dk) name)))))
       \<and> (name \<in> set (known_names m) \<longrightarrow>
            distinct (known_names (fst (world_of
              (register_new_user distance f attempts (m, dk) name))))
            = (Raised \<in> set attempts \<or> candidate_signatures attempts = []))
       \<and> known_names (fst (world_of (load_database (m, dk))))
           = (if mutex_locked m then known_names m else stored_names (database dk))"
proof (intro conjI impI)
  show "distinct (known_names (fst (world_of (remove_user f (m, dk) name))))"
    using d by (auto simp: remove_user_eq distinct_pop split: option.splits)
next
  assume "name \<notin> set (known_names m)"
  then show "distinct (known_names (fst (world_of
              (register_new_user distance f attempts (m, dk) name))))"
    using d by (simp add: register_world)
next
  assume "name \<in> set (known_names m)"
  then show "distinct (known_names (fst (world_of
              (register_new_user distance f attempts (m, dk) name))))
            = (Raised \<in> set attempts \<or> candidate_signatures attempts = [])"
    using d by (simp add: register_world)
next
  show "known_names (fst (world_of (load_database (m, dk))))
           = (if mutex_locked m then known_names m else stored_names (database dk))"
    by (simp add: load_database_eq)
qed

theorem names_distinct_preserved_witness:
  "distinct (known_names store_alice)
   \<and> ''bob'' \<notin> set (known_names store_alice)
   \<and> known_names (fst (world_of
        (register_new_user absd io_ok [Frame (one_face 5)] (store_alice, no_files) ''bob'')))
      = [''alice'', ''bob'']
   \<and> distinct (known_names (fst (world_of
        (register_new_user absd io_ok [Frame (one_face 5)] (store_alice, no_files) ''bob''))))
   \<and> known_names (fst (world_of (remove_user io_ok (store_alice, no_files) ''alice''))) = []
   \<and> distinct (known_names (fst (world_of (remove_user io_ok (store_alice, no_files) ''alice''))))"
proof -
  have a: "distinct (known_names store_alice)" by (simp add: store_alice_def)
  have b: "''bob'' \<notin> set (known_names store_alice)" by (simp add: store_alice_def)
  have r: "known_names (fst (world_of
        (register_new_user absd io_ok [Frame (one_face 5)] (store_alice, no_files) ''bob'')))
      = [''alice'', ''bob'']"
    by (simp add: register_new_user_def save_database_def one_face_def min_distance_def
        face_distance_def absd_def store_alice_def)
  have q: "known_names (fst (world_of (remove_user io_ok (store_alice, no_files) ''alice''))) = []"
    by (simp add: remove_user_def save_database_def pop_def store_alice_def)
  from names_distinct_preserved [OF a, of io_ok no_files "''bob''" absd "[Frame (one_face 5)]"]
    names_distinct_preserved [OF a, of io_ok no_files "''alice''"] a b r q
  show ?thesis by simp
qed

text \<open>
  The claim as the specification states it fails: registering \<open>alice\<close> a second time
  succeeds and the store holds her name twice.
\<close>

theorem register_duplicates_name:
  "distinct (known_names store_alice)
   \<and> register_new_user absd io_ok [Frame (one_face 5)] (store_alice, no_files) ''alice''
      = Returned True
          (\<lparr>known_encodings = [0, 5], known_names = [''alice'', ''alice''], mutex_locked = False\<rparr>,
           \<lparr>database = Some (Pickled (Some [0, 5]) (Some [''alice'', ''alice''])), backup = None\<rparr>)
   \<and> \<not> distinct [''alice'', ''alice'']"
  by (simp add: register_new_user_def one_face_def min_distance_def face_distance_def absd_def
      save_database_def write_database_def io_ok_def no_files_def store_alice_def)

subsection \<open>Parallel lists\<close>

text \<open>
  Claim C10, as the code has it. From a store whose two lists are equally long,
  \<open>remove_user\<close> and \<open>register_new_user\<close> end in a store whose lists are equally long:
  the first drops the pair at the first position of the name (or nothing), the second
  appends one pair of the name and the chosen signature (or nothing). \<open>load_database\<close>
  ends in equally long lists when the lists it reads from the file are equally long (in
  particular for no file and for an unreadable one); it does not compare them.
\<close>

theorem parallel_lists_preserved:
  assumes p: "length (known_names m) = length (known_encodings m)"
  shows "(let m' = fst (world_of (remove_user f (m, dk) name))
          in length (known_names m') = length (known_encodings m')
             \<and> entries m' =
                 (if mutex_locked m then entries m
                  else case index_of name (known_names m) of
                         None \<Rightarrow> entries m
                       | Some i \<Rightarrow> pop i (entries m)))
       \<and> (let m' = fst (world_of (register_new_user distance f attempts (m, dk) name))
          in length (known_names m') = length (known_encodings m')
             \<and> entries m' =
                 (if Raised \<in> set attempts \<or> candidate_signatures attempts = [] then entries m
                  else entries m @
                         [(name, arg_min_list (min_distance distance (known_encodings m))
                                   (candidate_signatures attempts))]))
       \<and> (length (stored_names (database dk)) = length (stored_encodings (database dk)) \<longrightarrow>
            (let m' = fst (world_of (load_database (m, dk)))
             in length (known_names m') = length (known_encodings m')
                \<and> entries m' =
                    (if mutex_locked m then entries m
                     else zip (stored_names (database dk)) (stored_encodings (database dk)))))"
proof (intro conjI impI)
  show "let m' = fst (world_of (remove_user f (m, dk) name))
          in length (known_names m') = length (known_encodings m')
             \<and> entries m' =
                 (if mutex_locked m then entries m
                  else case index_of name (known_names m) of
                         None \<Rightarrow> entries m
                       | Some i \<Rightarrow> pop i (entries m))"
  proof (cases "index_of name (known_names m)")
    case None
    with p show ?thesis by (simp add: remove_user_eq entries_def)
  next
    case (Some i)
    then have "i < length (known_names m)" by (simp add: index_of_Some)
    with p Some show ?thesis
      by (simp add: remove_user_eq entries_def zip_pop Let_def) (simp add: pop_def)
  qed
next
  show "let m' = fst (world_of (register_new_user distance f attempts (m, dk) name))
          in length (known_names m') = length (known_encodings m')
             \<and> entries m' =
                 (if Raised \<in> set attempts \<or> candidate_signatures attempts = [] then entries m
                  else entries m @
                         [(name, arg_min_list (min_distance distance (known_encodings m))
                                   (candidate_signatures attempts))])"
    using p by (simp add: register_world entries_def Let_def)
next
  assume "length (stored_names (database dk)) = length (stored_encodings (database dk))"
  with p show "let m' = fst (world_of (load_database (m, dk)))
             in length (known_names m') = length (known_encodings m')
                \<and> entries m' =
                    (if mutex_locked m then entries m
                     else zip (stored_names (database dk)) (stored_encodings (database dk)))"
    by (simp add: load_database_eq entries_def Let_def)
qed

theorem parallel_lists_preserved_witness:
  "length (known_names store_alice) = length (known_encodings store_alice)
   \<and> entries (fst (world_of (remove_user io_ok (store_alice, no_files) ''alice''))) = []
   \<and> entries (fst (world_of
        (register_new_user absd io_ok [Frame (one_face 5)] (store_alice, no_files) ''bob'')))
      = [(''alice'', 0), (''bob'', 5)]
   \<and> length (stored_names (database no_files)) = length (stored_encodings (database no_files))
   \<and> entries (fst (world_of (load_database (store_alice, no_files)))) = []"
proof -
  have a: "length (known_names store_alice) = length (known_encodings store_alice)"
    by (simp add: store_alice_def)
  have b: "length (stored_names (database no_files)) = length (stored_encodings (database no_files))"
    by (simp add: no_files_def)
  have i: "index_of ''alice'' (known_names store_alice) = Some 0" by (simp add: store_alice_def)
  have e: "entries store_alice = [(''alice'', 0)]" by (simp add: entries_def store_alice_def)
  have c: "candidate_signatures [Frame (one_face (5::real))] = [5]" by (simp add: one_face_def)
  have u: "\<not> mutex_locked store_alice" by (simp add: store_alice_def)
  from parallel_lists_preserved [OF a, of io_ok no_files "''alice''" absd "[Frame (one_face 5)]"]
    parallel_lists_preserved [OF a, of io_ok no_files "''bob''" absd "[Frame (one_face 5)]"]
  show ?thesis
    using a b i e c u by (simp add: Let_def pop_def no_files_def)
qed

text \<open>
  The claim as the specification states it fails for a file that has the key
  \<open>'encodings'\<close> and not the key \<open>'names'\<close>: each list gets its own default, and the
  store ends with one signature and no name.
\<close>

theorem load_breaks_parallel_lists:
  "length (known_names store_empty) = length (known_encodings store_empty)
   \<and> load_database (store_empty, disk_names_missing)
      = Returned () (\<lparr>known_encodings = [1], known_names = [], mutex_locked = False\<rparr>,
                     disk_names_missing)
   \<and> length ([] :: string list) \<noteq> length [1 :: real]"
  by (simp add: load_database_def store_empty_def disk_names_missing_def)


subsection \<open>Persistence\<close>

lemma write_database_failed:
  "persist_fails f dk \<Longrightarrow>
   database (write_database f m dk) =
     (if database dk \<noteq> None \<and> \<not> rename_ok f then database dk
      else if \<not> open_ok f then None else Some Unreadable)"
  by (auto simp: write_database_def persist_fails_def Let_def)

lemma write_database_done:
  "\<not> persist_fails f dk \<Longrightarrow>
   database (write_database f m dk) = Some (Pickled (Some (known_encodings m)) (Some (known_names m)))"
  by (auto simp: write_database_def persist_fails_def Let_def)

text \<open>
  Claim C7, as the code has it. When a step of the save raises, \<open>save_database\<close> catches
  it and returns normally, leaving the store as it was. \<open>register_new_user\<close> does not
  learn of the failure: it returns \<open>True\<close>, the store keeps the appended pair, and the
  database path holds the old file (the rename failed), no file (the open failed) or an
  unreadable file (the dump failed).
\<close>

theorem save_failure_swallowed:
  assumes free: "\<not> mutex_locked m"
    and fails: "persist_fails f dk"
    and quiet: "Raised \<notin> set attempts"
    and some: "candidate_signatures attempts \<noteq> []"
  shows "save_database f (m, dk) = Returned () (m, write_database f m dk)
       \<and> (let chosen = arg_min_list (min_distance distance (known_encodings m))
                          (candidate_signatures attempts);
               m' = m\<lparr>known_encodings := known_encodings m @ [chosen],
                      known_names := known_names m @ [name]\<rparr>
           in register_new_user distance f attempts (m, dk) name
                = Returned True (m', write_database f m' dk)
              \<and> database (write_database f m' dk) =
                  (if database dk \<noteq> None \<and> \<not> rename_ok f then database dk
                   else if \<not> open_ok f then None else Some Unreadable))"
proof -
  obtain c cs where c: "candidate_signatures attempts = c # cs"
    using some by (cases "candidate_signatures attempts") auto
  show ?thesis
    using free quiet fails
    by (simp add: save_database_free register_eq c Let_def write_database_failed)
qed

theorem save_failure_swallowed_witness:
  "\<not> mutex_locked store_alice
   \<and> persist_fails io_dump_fails no_files
   \<and> Raised \<notin> set [Frame (one_face (2::real))]
   \<and> candidate_signatures [Frame (one_face (2::real))] = [2]
   \<and> register_new_user absd io_dump_fails [Frame (one_face 2)] (store_alice, no_files) ''bob''
      = Returned True
          (\<lparr>known_encodings = [0, 2], known_names = [''alice'', ''bob''], mutex_locked = False\<rparr>,
           \<lparr>database = Some Unreadable, backup = None\<rparr>)"
proof -
  have a: "\<not> mutex_locked store_alice" by (simp add: store_alice_def)
  have b: "persist_fails io_dump_fails no_files"
    by (simp add: persist_fails_def io_dump_fails_def)
  have c: "Raised \<notin> set [Frame (one_face (2::real))]" by simp
  have d: "candidate_signatures [Frame (one_face (2::real))] = [2]" by (simp add: one_face_def)
  then have e: "candidate_signatures [Frame (one_face (2::real))] \<noteq> []" by simp
  from save_failure_swallowed [OF a b c e, of absd "''bob''"]
  show ?thesis
    using a b c d
    by (simp add: Let_def write_database_def io_dump_fails_def no_files_def store_alice_def)
qed

text \<open>
  The claim as the specification states it fails: the dump of the new store fails and
  the registration still answers \<open>True\<close>.
\<close>

theorem register_reports_success_on_failed_save:
  "persist_fails io_dump_fails no_files
   \<and> register_new_user absd io_dump_fails [Frame (one_face 5)] (store_alice, no_files) ''bob''
      = Returned True
          (\<lparr>known_encodings = [0, 5], known_names = [''alice'', ''bob''], mutex_locked = False\<rparr>,
           \<lparr>database = Some Unreadable, backup = None\<rparr>)"
  by (simp add: persist_fails_def register_new_user_def one_face_def min_distance_def
      face_distance_def absd_def save_database_def write_database_def io_dump_fails_def
      no_files_def store_alice_def)

text \<open>
  Claim C8. When the mutex is free and no step of the save raises, \<open>save_database\<close>
  followed by \<open>load_database\<close> (into any manager) reproduces the two lists as they were,
  hence the same set of (name, signature) pairs; and \<open>load_database\<close> on a missing or
  unreadable file returns normally with an empty store.
\<close>

theorem save_load_round_trip:
  assumes free: "\<not> mutex_locked m" and free0: "\<not> mutex_locked m0"
    and ok: "\<not> persist_fails f dk"
  shows "save_database f (m, dk) = Returned () (m, write_database f m dk)
       \<and> load_database (m0, write_database f m dk)
           = Returned ()
               (m0\<lparr>known_encodings := known_encodings m, known_names := known_names m\<rparr>,
                write_database f m dk)
       \<and> set (entries (m0\<lparr>known_encodings := known_encodings m, known_names := known_names m\<rparr>))
           = set (entries m)
       \<and> (database dk = None \<or> database dk = Some Unreadable \<longrightarrow>
            load_database (m0, dk)
              = Returned () (m0\<lparr>known_encodings := [], known_names := []\<rparr>, dk))"
proof -
  have u: "\<And>es ns. m0\<lparr>known_encodings := es, known_names := ns, mutex_locked := False\<rparr>
              = m0\<lparr>known_encodings := es, known_names := ns\<rparr>"
    using free0 by (cases m0) simp
  show ?thesis
    using free free0 ok
    by (auto simp: save_database_free load_database_eq write_database_done entries_def u)
qed

theorem save_load_round_trip_witness:
  "\<not> mutex_locked store_alice \<and> \<not> mutex_locked store_empty
   \<and> persist_fails io_ok no_files = False
   \<and> save_database io_ok (store_alice, no_files)
       = Returned () (store_alice,
           \<lparr>database = Some (Pickled (Some [0]) (Some [''alice''])), backup = None\<rparr>)
   \<and> load_database (store_empty,
           \<lparr>database = Some (Pickled (Some [0]) (Some [''alice''])), backup = None\<rparr>)
       = Returned () (store_alice,
           \<lparr>database = Some (Pickled (Some [0]) (Some [''alice''])), backup = None\<rparr>)
   \<and> load_database (store_alice, no_files) = Returned () (store_empty, no_files)"
proof -
  have a: "\<not> mutex_locked store_alice" by (simp add: store_alice_def)
  have b: "\<not> mutex_locked store_empty" by (simp add: store_empty_def)
  have c: "\<not> persist_fails io_ok no_files" by (simp add: persist_fails_def io_ok_def)
  have w: "write_database io_ok store_alice no_files
            = \<lparr>database = Some (Pickled (Some [0]) (Some [''alice''])), backup = None\<rparr>"
    by (simp add: write_database_def io_ok_def no_files_def store_alice_def)
  have n: "database no_files = None" by (simp add: no_files_def)
  from save_load_round_trip [OF a b c] save_load_round_trip [OF b a c]
  show ?thesis
    using a b c w n by (simp add: store_alice_def store_empty_def)
qed


subsection \<open>Identification\<close>

lemma min_list_in:
  fixes ds :: "real list"
  shows "ds \<noteq> [] \<Longrightarrow> min_list ds \<in> set ds"
  by (simp add: min_list_Min)

lemma argmin_first_minimum:
  assumes "ds \<noteq> []"
  shows "\<exists>i<length ds. argmin ds = Some i \<and> ds ! i = Min (set ds)
           \<and> (\<forall>j<i. ds ! j \<noteq> Min (set ds))"
proof -
  from assms obtain d rest where ds: "ds = d # rest" by (cases ds) auto
  from min_list_in [OF assms] obtain i where i: "index_of (min_list ds) ds = Some i"
    using index_of_None [of "min_list ds" ds] by (cases "index_of (min_list ds) ds") auto
  from index_of_Some [OF i] have "i < length ds" "ds ! i = min_list ds"
      "\<forall>j<i. ds ! j \<noteq> min_list ds"
    by auto
  moreover have "argmin ds = Some i"
    using i by (simp add: argmin_def ds)
  ultimately show ?thesis
    using assms by (auto simp: min_list_Min)
qed

lemma identify_one_eq:
  assumes par: "length (known_encodings m) \<le> length (known_names m)"
  shows "identify_one distance m q =
           Inr (case argmin (face_distance distance (known_encodings m) q) of
                  None \<Rightarrow> None
                | Some i \<Rightarrow>
                    if face_distance distance (known_encodings m) q ! i < recognition_threshold
                    then Some (known_names m ! i) else None)"
proof (cases "known_encodings m = []")
  case True
  then show ?thesis
    by (simp add: identify_one_def compare_faces_def face_distance_def argmin_def)
next
  case False
  let ?ds = "face_distance distance (known_encodings m) q"
  have len: "length ?ds = length (known_encodings m)" by (simp add: face_distance_def)
  with False have "?ds \<noteq> []" by auto
  from argmin_first_minimum [OF this] obtain i where
    i: "i < length ?ds" "argmin ?ds = Some i"
    by auto
  let ?matches = "compare_faces distance (known_encodings m) q recognition_threshold"
  have nth: "?matches ! i = (?ds ! i \<le> recognition_threshold)"
    using i(1) by (simp add: compare_faces_def)
  show ?thesis
  proof (cases "?ds ! i < recognition_threshold")
    case True
    then have "?matches ! i" using nth by simp
    moreover have "i < length ?matches" using i(1) by (simp add: compare_faces_def)
    ultimately have "True \<in> set ?matches" by (metis nth_mem)
    with True \<open>?matches ! i\<close> False i len par show ?thesis
      by (simp add: identify_one_def Let_def)
  next
    case False
    with i show ?thesis
      by (simp add: identify_one_def Let_def)
  qed
qed

lemma identify_all_eq:
  assumes par: "length (known_encodings m) \<le> length (known_names m)"
  shows "\<exists>names. identify_all distance m qs = Inr names \<and> length names = length qs"
  by (induction qs) (auto simp: identify_one_eq [OF par])

text \<open>
  Claim C4, as the code has it. For a store that has a name for every signature (the list
  of names is at least as long as the list of signatures) and a frame with at least one
  face, of which \<open>q\<close> is the first signature: with an empty store the
  result is \<open>None\<close>; otherwise \<open>i\<close> is the first position of the smallest distance from
  \<open>q\<close> to a stored signature, and the result is the name at \<open>i\<close> exactly when that
  distance is below the threshold of 0.6 and the name is not the empty string, \<open>None\<close>
  in every other case. The last test of \<open>identify_face\<close> reads the name as a truth value,
  so an entry registered under the empty name is never reported.
\<close>

theorem identify_face_nearest_below_threshold:
  assumes par: "length (known_encodings m) \<le> length (known_names m)"
    and locs: "face_locations det \<noteq> []"
    and encs: "face_encodings det = q # qs"
  shows "(known_encodings m = [] \<longrightarrow> identify_face distance m (Some det) = Inr None)
       \<and> (known_encodings m \<noteq> [] \<longrightarrow>
            (\<exists>i<length (known_encodings m).
               argmin (face_distance distance (known_encodings m) q) = Some i
               \<and> distance (known_encodings m ! i) q
                   = Min (set (face_distance distance (known_encodings m) q))
               \<and> identify_face distance m (Some det)
                   = Inr (if distance (known_encodings m ! i) q < recognition_threshold
                             \<and> known_names m ! i \<noteq> []
                          then Some (known_names m ! i) else None)))"
proof -
  let ?ds = "face_distance distance (known_encodings m) q"
  from identify_all_eq [OF par, of distance qs] obtain rest where
    rest: "identify_all distance m qs = Inr rest" by auto
  have face: "identify_face distance m (Some det) =
      (case identify_one distance m q of
         Inl e \<Rightarrow> Inl e
       | Inr first \<Rightarrow> if truthy first then Inr first else Inr None)"
    using locs encs rest by (simp add: identify_face_def split: sum.splits)
  show ?thesis
  proof (intro conjI impI)
    assume "known_encodings m = []"
    then show "identify_face distance m (Some det) = Inr None"
      unfolding face identify_one_eq [OF par] by (simp add: face_distance_def argmin_def)
  next
    assume "known_encodings m \<noteq> []"
    then have "?ds \<noteq> []" by (simp add: face_distance_def)
    from argmin_first_minimum [OF this] obtain i where
      i: "i < length ?ds" "argmin ?ds = Some i" "?ds ! i = Min (set ?ds)"
      by auto
    have l: "i < length (known_encodings m)" using i(1) by (simp add: face_distance_def)
    then have d: "?ds ! i = distance (known_encodings m ! i) q" by (simp add: face_distance_def)
    have "identify_face distance m (Some det)
            = Inr (if distance (known_encodings m ! i) q < recognition_threshold
                      \<and> known_names m ! i \<noteq> []
                   then Some (known_names m ! i) else None)"
      unfolding face identify_one_eq [OF par] i(2) using d by simp
    with l i(2) i(3) d
    show "\<exists>i<length (known_encodings m).
               argmin ?ds = Some i
               \<and> distance (known_encodings m ! i) q = Min (set ?ds)
               \<and> identify_face distance m (Some det)
                   = Inr (if distance (known_encodings m ! i) q < recognition_threshold
                             \<and> known_names m ! i \<noteq> []
                          then Some (known_names m ! i) else None)"
      by auto
  qed
qed

theorem identify_face_nearest_below_threshold_witness:
  "length (known_encodings store_alice) \<le> length (known_names store_alice)
   \<and> face_locations (one_face (1 / 2 :: real)) \<noteq> []
   \<and> face_encodings (one_face (1 / 2 :: real)) = [1 / 2]
   \<and> known_encodings store_alice \<noteq> []
   \<and> absd (known_encodings store_alice ! 0) (1 / 2) < recognition_threshold
   \<and> identify_face absd store_alice (Some (one_face (1 / 2))) = Inr (Some ''alice'')"
proof -
  have a: "length (known_encodings store_alice) \<le> length (known_names store_alice)"
    by (simp add: store_alice_def)
  have b: "face_locations (one_face (1 / 2 :: real)) \<noteq> []" by (simp add: one_face_def)
  have c: "face_encodings (one_face (1 / 2 :: real)) = [1 / 2]" by (simp add: one_face_def)
  have d: "known_encodings store_alice \<noteq> []" by (simp add: store_alice_def)
  have e: "absd (known_encodings store_alice ! 0) (1 / 2) < recognition_threshold"
    by (simp add: absd_def store_alice_def recognition_threshold_def)
  have l: "length (known_encodings store_alice) = 1" by (simp add: store_alice_def)
  have n: "known_names store_alice ! 0 = ''alice''" by (simp add: store_alice_def)
  from identify_face_nearest_below_threshold [OF a b c, of absd] d
  obtain i where "i < length (known_encodings store_alice)"
    and r: "identify_face absd store_alice (Some (one_face (1 / 2)))
             = Inr (if absd (known_encodings store_alice ! i) (1 / 2) < recognition_threshold
                       \<and> known_names store_alice ! i \<noteq> []
                    then Some (known_names store_alice ! i) else None)"
    by blast
  then have "i = 0" using l by simp
  with r e n have "identify_face absd store_alice (Some (one_face (1 / 2))) = Inr (Some ''alice'')"
    by simp
  with a b c d e show ?thesis by blast
qed

text \<open>
  The claim as the specification states it fails for a store that holds the empty name:
  the only stored signature is at distance 0.5, below the threshold, and the result is
  \<open>None\<close>, not the stored name. It also fails for a store that has a signature and no
  name for it (as \<open>load_database\<close> leaves it after a file without the key
  \<open>'names'\<close>): the lookup of the name raises \<open>IndexError\<close>, which \<open>identify_face\<close>
  does not catch.
\<close>

theorem empty_name_is_not_returned:
  "length (known_names store_unnamed) = length (known_encodings store_unnamed)
   \<and> face_distance absd (known_encodings store_unnamed) (1 / 2) = [1 / 2]
   \<and> (1 / 2 :: real) < recognition_threshold
   \<and> known_names store_unnamed = ['''']
   \<and> identify_face absd store_unnamed (Some (one_face (1 / 2))) = Inr None
   \<and> face_distance absd (known_encodings store_nameless) (1 / 2) = [1 / 2]
   \<and> identify_face absd store_nameless (Some (one_face (1 / 2))) = Inl IndexError"
  by (simp add: store_unnamed_def store_nameless_def face_distance_def absd_def
      recognition_threshold_def identify_face_def identify_one_def compare_faces_def argmin_def
      one_face_def)

subsection \<open>The mutex\<close>

text \<open>
  With the mutex free, removing a registered name ends waiting in \<open>save_database\<close>, after
  both lists have lost the entry.
\<close>

lemma remove_user_waits_on_itself:
  "remove_user io_ok (store_alice, no_files) ''alice''
     = Blocked (\<lparr>known_encodings = [], known_names = [], mutex_locked = True\<rparr>, no_files)"
  by (simp add: remove_user_def save_database_def pop_def store_alice_def)

text \<open>
  Claim C9, evaluated on the code. While the mutex is held elsewhere, \<open>load_database\<close>
  and \<open>remove_user\<close> wait without touching the store. \<open>identify_face\<close> never asks for
  the mutex: it reads both lists and returns the name. \<open>register_new_user\<close> reads the
  signatures and appends to both lists before anything asks for the mutex; only the
  \<open>save_database\<close> it calls afterwards waits.
\<close>

theorem store_access_without_mutex:
  "identify_face absd store_alice_held (Some (one_face (1 / 2))) = Inr (Some ''alice'')
   \<and> register_new_user absd io_ok [Frame (one_face 5)] (store_alice_held, no_files) ''bob''
       = Blocked (\<lparr>known_encodings = [0, 5], known_names = [''alice'', ''bob''],
                   mutex_locked = True\<rparr>, no_files)
   \<and> load_database (store_alice_held, no_files) = Blocked (store_alice_held, no_files)
   \<and> remove_user io_ok (store_alice_held, no_files) ''alice''
       = Blocked (store_alice_held, no_files)"
  by (simp add: store_alice_held_def face_distance_def absd_def recognition_threshold_def
      identify_face_def identify_one_def compare_faces_def argmin_def one_face_def
      register_new_user_def min_distance_def save_database_def load_database_def
      remove_user_def)

end
